theory Spec2Isabelle
  imports Main "HOL-Library.AList"
begin

section \<open>Values, dictionaries and documents\<close>

text \<open>
  The embedding follows \<^verbatim>\<open>src/telebot_models/models.py\<close>. Field values are kept
  abstract except for what the code inspects: \<^verbatim>\<open>isinstance(x, ObjectId)\<close> and
  \<^verbatim>\<open>x is None\<close>. An \<^verbatim>\<open>ObjectId\<close> is an opaque value compared by equality.
\<close>

datatype val = VNone | VObjectId nat | VInt int | VStr string

text \<open>
  A Python \<^verbatim>\<open>dict\<close> with string keys: an association list in insertion order.
  \<^verbatim>\<open>d[k] = v\<close> keeps the position of an existing key and appends a new one, which is
  \<open>AList.update\<close>. \<^verbatim>\<open>{**d, **e}\<close> and \<^verbatim>\<open>d.update(e)\<close> store the items of \<open>e\<close>
  in order. Python's \<^verbatim>\<open>==\<close> on dicts ignores the order: it is equality of \<open>map_of\<close>.
\<close>

type_synonym dict = "(string \<times> val) list"

definition dict_update :: "dict \<Rightarrow> dict \<Rightarrow> dict" where
  "dict_update d e = fold (\<lambda>(k, v). AList.update k v) e d"

definition or_empty :: "dict option \<Rightarrow> dict" where
  \<comment> \<open>\<^verbatim>\<open>document_filter or {}\<close> on a value that is a dict or \<^verbatim>\<open>None\<close>\<close>
  "or_empty d = (case d of None \<Rightarrow> [] | Some x \<Rightarrow> x)"

section \<open>Store calls and errors\<close>

datatype call =
    InsertOne string dict
  | UpdateOne string dict dict
  | DeleteOne string dict
  | DeleteMany string dict
  | Find string dict
  | FindOne string dict "val list"
  | CountDocuments string dict

record update_result =
  matched_count :: nat
  modified_count :: nat

datatype answer =
    Failed
  | Inserted val
  | Updated update_result
  | Deleted nat
  | Found "dict list"
  | FoundOne "dict option"
  | Counted nat

datatype error =
    DocumentNotFound dict
    \<comment> \<open>\<^verbatim>\<open>ValueError(f'Document not found by filter {self.document_filter}')\<close>\<close>
  | AttributeError string
    \<comment> \<open>\<^verbatim>\<open>getattr\<close> on an attribute the object does not have\<close>
  | NotImplementedError string
    \<comment> \<open>raised by the default \<^verbatim>\<open>CollectionGetter.get_collection\<close>\<close>
  | KeyError string
    \<comment> \<open>subscript with a key the dict does not have\<close>
  | RecursionError
    \<comment> \<open>the interpreter's recursion limit, reached by a cascade that nests too deep\<close>
  | PersistenceError call
    \<comment> \<open>a failure raised by the store driver for the given call\<close>

section \<open>Classes, instances and the program state\<close>

text \<open>
  A subclass of \<^verbatim>\<open>BaseModelManager\<close> is described by its class attributes
  \<^verbatim>\<open>model\<close> (the name of the \<^verbatim>\<open>Model\<close> subclass) and \<^verbatim>\<open>collection\<close>.
  A manager instance has the one attribute \<^verbatim>\<open>document_filter\<close>, a reference to a
  dict object: \<^verbatim>\<open>find_one\<close> updates that dict in place, so dict objects live in a heap.
\<close>

record manager_class =
  class_name :: string
  model :: string
  collection :: string

record manager =
  cls :: manager_class
  document_filter :: nat

text \<open>
  An instance of a \<^verbatim>\<open>Model\<close> subclass: its class name, its field values by field name
  (the identifier under \<^verbatim>\<open>id\<close>, whose alias is \<^verbatim>\<open>_id\<close>) and the attributes set on
  its private \<^verbatim>\<open>__custom_cache__\<close> object (a cached value is a model instance or
  \<^verbatim>\<open>None\<close>).
\<close>

datatype model_instance =
  Model (model_class: string) (field_values: dict)
    (custom_cache: "(string \<times> model_instance option) list")

type_synonym edge = "string \<times> string \<times> string"
  \<comment> \<open>\<^verbatim>\<open>(model_cls, field_name, model_field_name)\<close>, an item of \<^verbatim>\<open>_relation_map\<close>\<close>

text \<open>
  What the program does not define itself is a parameter: the collection getter installed
  by \<^verbatim>\<open>set_collection_getter\<close>, the store behind the collection handles (which of its
  calls fail, counted from the first call, and which documents a filter matches), and the
  \<^verbatim>\<open>manager\<close> class attribute that \<^verbatim>\<open>ModelManagerMeta\<close> has bound on every
  \<^verbatim>\<open>Model\<close> subclass when the classes were created.
\<close>

record env =
  collection_getter :: "string \<Rightarrow> error + string"
  store_fails :: "nat \<Rightarrow> bool"
  store_matches :: "dict \<Rightarrow> dict \<Rightarrow> bool"
  manager_attr :: "string \<Rightarrow> manager_class"

text \<open>
  The mutable state: the documents of every physical collection, the store calls issued so
  far with their answers (oldest first), the next identifier the driver generates, the heap of dict objects,
  and the one list object \<^verbatim>\<open>BaseModelManager._relation_map\<close>. No subclass in the
  source rebinds \<^verbatim>\<open>_relation_map\<close>, so \<^verbatim>\<open>cls._relation_map\<close> is that same list
  object for every manager class \<^verbatim>\<open>cls\<close>.
\<close>

record world =
  db :: "string \<Rightarrow> dict list"
  trace :: "(call \<times> answer) list"
  next_oid :: nat
  heap :: "nat \<Rightarrow> dict"
  next_ref :: nat
  class_relation_map :: "edge list"

definition alloc :: "dict \<Rightarrow> world \<Rightarrow> nat \<times> world" where
  \<comment> \<open>a dict display or \<^verbatim>\<open>{**a, **b}\<close> creates a new dict object\<close>
  "alloc d w = (next_ref w, w\<lparr>heap := (heap w)(next_ref w := d), next_ref := Suc (next_ref w)\<rparr>)"

definition init :: "manager_class \<Rightarrow> nat option \<Rightarrow> world \<Rightarrow> manager \<times> world" where
  \<comment> \<open>\<^verbatim>\<open>cls(document_filter)\<close>: \<^verbatim>\<open>self.document_filter = document_filter or {}\<close>\<close>
  "init c r w =
     (case r of
        None \<Rightarrow> (let (a, w') = alloc [] w in (\<lparr>cls = c, document_filter = a\<rparr>, w'))
      | Some a \<Rightarrow>
          if heap w a = [] then (let (a', w') = alloc [] w in (\<lparr>cls = c, document_filter = a'\<rparr>, w'))
          else (\<lparr>cls = c, document_filter = a\<rparr>, w))"

definition filter_m :: "manager \<Rightarrow> dict option \<Rightarrow> world \<Rightarrow> manager \<times> world" where
  \<comment> \<open>\<^verbatim>\<open>BaseModelManager.filter\<close>\<close>
  "filter_m self document_filter_arg w =
     (let df = or_empty document_filter_arg;
          (a, w1) = alloc (dict_update (heap w (document_filter self)) df) w
      in init (cls self) (Some a) w1)"

section \<open>The store behind a collection handle\<close>

text \<open>
  The driver is not part of the program. Its calls are modelled on a list of documents
  per collection: every call is recorded with its answer, a call that the environment
  makes fail raises and changes nothing, \<^verbatim>\<open>delete_one\<close>, \<^verbatim>\<open>update_one\<close> and
  \<^verbatim>\<open>find_one\<close> act on the first matching document, and \<^verbatim>\<open>insert_one\<close> adds a
  generated \<^verbatim>\<open>_id\<close> to a document that has none, in the caller's dict as well.
\<close>

definition fails_now :: "env \<Rightarrow> world \<Rightarrow> bool" where
  "fails_now E w = store_fails E (length (trace w))"

definition answered :: "call \<Rightarrow> answer \<Rightarrow> world \<Rightarrow> world" where
  "answered c a w = w\<lparr>trace := trace w @ [(c, a)]\<rparr>"

fun remove_first :: "(dict \<Rightarrow> bool) \<Rightarrow> dict list \<Rightarrow> dict list" where
  "remove_first P [] = []"
| "remove_first P (d # ds) = (if P d then ds else d # remove_first P ds)"

fun update_first :: "(dict \<Rightarrow> bool) \<Rightarrow> (dict \<Rightarrow> dict) \<Rightarrow> dict list \<Rightarrow> dict list" where
  "update_first P f [] = []"
| "update_first P f (d # ds) = (if P d then f d # ds else d # update_first P f ds)"

definition store_insert_one :: "env \<Rightarrow> string \<Rightarrow> dict \<Rightarrow> world \<Rightarrow> (error + dict) \<times> world" where
  \<comment> \<open>the result is the caller's dict after the call\<close>
  "store_insert_one E h document w =
     (if fails_now E w
      then (Inl (PersistenceError (InsertOne h document)), answered (InsertOne h document) Failed w)
      else (case map_of document ''_id'' of
              Some i \<Rightarrow>
                (Inr document,
                 answered (InsertOne h document) (Inserted i)
                   (w\<lparr>db := (db w)(h := db w h @ [document])\<rparr>))
            | None \<Rightarrow>
                (let i = VObjectId (next_oid w); document' = document @ [(''_id'', i)] in
                 (Inr document',
                  answered (InsertOne h document) (Inserted i)
                    (w\<lparr>db := (db w)(h := db w h @ [document']), next_oid := Suc (next_oid w)\<rparr>)))))"

definition store_update_one ::
  "env \<Rightarrow> string \<Rightarrow> dict \<Rightarrow> dict \<Rightarrow> world \<Rightarrow> (error + update_result) \<times> world" where
  \<comment> \<open>\<^verbatim>\<open>update_one(flt, {'$set': fields_set})\<close>\<close>
  "store_update_one E h flt fields_set w =
     (if fails_now E w
      then (Inl (PersistenceError (UpdateOne h flt fields_set)),
            answered (UpdateOne h flt fields_set) Failed w)
      else (case List.find (store_matches E flt) (db w h) of
              None \<Rightarrow>
                (let r = \<lparr>matched_count = 0, modified_count = 0\<rparr> in
                 (Inr r, answered (UpdateOne h flt fields_set) (Updated r) w))
            | Some d \<Rightarrow>
                (let r = \<lparr>matched_count = 1,
                          modified_count = (if dict_update d fields_set = d then 0 else 1)\<rparr> in
                 (Inr r,
                  answered (UpdateOne h flt fields_set) (Updated r)
                    (w\<lparr>db := (db w)(h := update_first (store_matches E flt)
                                           (\<lambda>d. dict_update d fields_set) (db w h))\<rparr>)))))"

definition store_delete_one :: "env \<Rightarrow> string \<Rightarrow> dict \<Rightarrow> world \<Rightarrow> (error + nat) \<times> world" where
  \<comment> \<open>the result is the \<^verbatim>\<open>deleted_count\<close> of the \<^verbatim>\<open>DeleteResult\<close>\<close>
  "store_delete_one E h flt w =
     (if fails_now E w
      then (Inl (PersistenceError (DeleteOne h flt)), answered (DeleteOne h flt) Failed w)
      else (let k = (if list_ex (store_matches E flt) (db w h) then 1 else 0) in
            (Inr k,
             answered (DeleteOne h flt) (Deleted k)
               (w\<lparr>db := (db w)(h := remove_first (store_matches E flt) (db w h))\<rparr>))))"

definition store_delete_many :: "env \<Rightarrow> string \<Rightarrow> dict \<Rightarrow> world \<Rightarrow> (error + nat) \<times> world" where
  "store_delete_many E h flt w =
     (if fails_now E w
      then (Inl (PersistenceError (DeleteMany h flt)), answered (DeleteMany h flt) Failed w)
      else (let k = length (filter (store_matches E flt) (db w h)) in
            (Inr k,
             answered (DeleteMany h flt) (Deleted k)
               (w\<lparr>db := (db w)(h := filter (\<lambda>d. \<not> store_matches E flt d) (db w h))\<rparr>))))"

definition store_find :: "env \<Rightarrow> string \<Rightarrow> dict \<Rightarrow> world \<Rightarrow> (error + dict list) \<times> world" where
  \<comment> \<open>\<^verbatim>\<open>find(flt).to_list(None)\<close>\<close>
  "store_find E h flt w =
     (if fails_now E w
      then (Inl (PersistenceError (Find h flt)), answered (Find h flt) Failed w)
      else (let docs = filter (store_matches E flt) (db w h) in
            (Inr docs, answered (Find h flt) (Found docs) w)))"

definition store_find_one ::
  "env \<Rightarrow> string \<Rightarrow> dict \<Rightarrow> val list \<Rightarrow> world \<Rightarrow> (error + dict option) \<times> world" where
  \<comment> \<open>further positional arguments go to the driver and do not change which document is found\<close>
  "store_find_one E h flt args w =
     (if fails_now E w
      then (Inl (PersistenceError (FindOne h flt args)), answered (FindOne h flt args) Failed w)
      else (let d = List.find (store_matches E flt) (db w h) in
            (Inr d, answered (FindOne h flt args) (FoundOne d) w)))"

definition store_count_documents :: "env \<Rightarrow> string \<Rightarrow> dict \<Rightarrow> world \<Rightarrow> (error + nat) \<times> world" where
  "store_count_documents E h flt w =
     (if fails_now E w
      then (Inl (PersistenceError (CountDocuments h flt)), answered (CountDocuments h flt) Failed w)
      else (let k = length (filter (store_matches E flt) (db w h)) in
            (Inr k, answered (CountDocuments h flt) (Counted k) w)))"

section \<open>The schema layer\<close>

text \<open>
  Of pydantic the program uses attribute access, \<^verbatim>\<open>dict(by_alias=True, exclude=..,
  include=..)\<close> and \<^verbatim>\<open>parse_obj\<close>. The only alias is the one \<^verbatim>\<open>Model\<close> declares:
  field \<^verbatim>\<open>id\<close>, alias \<^verbatim>\<open>_id\<close>. \<^verbatim>\<open>include\<close> restricts the fields when it is not
  \<^verbatim>\<open>None\<close>, \<^verbatim>\<open>exclude\<close> removes its members, both by field name. Validation is
  not modelled: \<^verbatim>\<open>parse_obj\<close> takes every key of the document as a field.
\<close>

definition getattr :: "model_instance \<Rightarrow> string \<Rightarrow> error + val" where
  "getattr m name =
     (case map_of (field_values m) name of None \<Rightarrow> Inl (AttributeError name) | Some v \<Rightarrow> Inr v)"

definition set_id :: "model_instance \<Rightarrow> val \<Rightarrow> model_instance" where
  \<comment> \<open>\<^verbatim>\<open>model.id = v\<close>\<close>
  "set_id m v = Model (model_class m) (AList.update ''id'' v (field_values m)) (custom_cache m)"

definition by_alias :: "string \<Rightarrow> string" where
  "by_alias k = (if k = ''id'' then ''_id'' else k)"

definition by_name :: "string \<Rightarrow> string" where
  "by_name k = (if k = ''_id'' then ''id'' else k)"

definition model_dict :: "model_instance \<Rightarrow> string set option \<Rightarrow> string set option \<Rightarrow> dict" where
  \<comment> \<open>\<^verbatim>\<open>model.dict(by_alias=True, exclude=exclude, include=include)\<close>\<close>
  "model_dict m exclude include =
     map (\<lambda>(k, v). (by_alias k, v))
       (filter (\<lambda>(k, v). (case include of None \<Rightarrow> True | Some s \<Rightarrow> k \<in> s) \<and>
                          (case exclude of None \<Rightarrow> True | Some s \<Rightarrow> k \<notin> s))
          (field_values m))"

definition parse_obj :: "string \<Rightarrow> dict \<Rightarrow> model_instance" where
  "parse_obj model_cls document = Model model_cls (map (\<lambda>(k, v). (by_name k, v)) document) []"

section \<open>BaseModelManager\<close>

text \<open>
  The methods take the environment, the class or the instance they are called on, their
  arguments and the state, and return the result or the error raised, with the state
  after the call. \<^verbatim>\<open>get_collection\<close> is taken to return the handle that the installed
  getter gives for \<^verbatim>\<open>cls.collection\<close>, or to raise what the getter raises. Left out
  are the keyword arguments that the methods only pass on to the driver,
  \<^verbatim>\<open>update_many\<close>, the generated \<^verbatim>\<open>by_related_obj\<close>, and the fact that
  \<^verbatim>\<open>exclude.add('id')\<close> also changes the caller's set.
\<close>

definition get_collection :: "env \<Rightarrow> manager_class \<Rightarrow> error + string" where
  \<comment> \<open>\<^verbatim>\<open>CollectionGetter.get_collection(cls.collection)\<close>; a handle is the name of the
      physical collection\<close>
  "get_collection E c = collection_getter E (collection c)"

definition default_collection_getter :: "string \<Rightarrow> error + string" where
  \<comment> \<open>\<^verbatim>\<open>CollectionGetter.get_collection\<close> before \<^verbatim>\<open>set_collection_getter\<close> is called\<close>
  "default_collection_getter c = Inl (NotImplementedError c)"

definition set_collection_getter :: "(string \<Rightarrow> error + string) \<Rightarrow> env \<Rightarrow> env" where
  "set_collection_getter func E = E\<lparr>collection_getter := func\<rparr>"

definition truthy :: "string set option \<Rightarrow> bool" where
  \<comment> \<open>the truth value of a set or \<^verbatim>\<open>None\<close>\<close>
  "truthy s = (case s of None \<Rightarrow> False | Some x \<Rightarrow> x \<noteq> {})"

definition exclude_arg :: "string set option \<Rightarrow> string set option \<Rightarrow> string set option" where
  \<comment> \<open>the value of \<^verbatim>\<open>exclude\<close> after the \<^verbatim>\<open>if include: ... else: ...\<close> block that
      \<^verbatim>\<open>insert\<close> and \<^verbatim>\<open>update\<close> both start with\<close>
  "exclude_arg include exclude =
     (if truthy include then None
      else Some (Set.insert ''id'' (if truthy exclude then the exclude else {})))"

definition insert ::
  "env \<Rightarrow> manager_class \<Rightarrow> model_instance \<Rightarrow> string set option \<Rightarrow> string set option \<Rightarrow> world
   \<Rightarrow> (error + val) \<times> model_instance \<times> world" where
  \<comment> \<open>the result is the \<^verbatim>\<open>inserted_id\<close> of the \<^verbatim>\<open>InsertOneResult\<close>; the second
      component is \<^verbatim>\<open>model\<close> after the call\<close>
  "insert E c m include exclude w =
     (let document = model_dict m (exclude_arg include exclude) include
      in case get_collection E c of
           Inl e \<Rightarrow> (Inl e, m, w)
         | Inr h \<Rightarrow>
             (case store_insert_one E h document w of
                (Inl e, w1) \<Rightarrow> (Inl e, m, w1)
              | (Inr document', w1) \<Rightarrow>
                  (case map_of document' ''_id'' of
                     None \<Rightarrow> (Inl (KeyError ''_id''), m, w1)
                   | Some i \<Rightarrow> (Inr i, set_id m i, w1))))"

definition update ::
  "env \<Rightarrow> manager_class \<Rightarrow> model_instance \<Rightarrow> string set option \<Rightarrow> string set option \<Rightarrow> world
   \<Rightarrow> (error + update_result) \<times> world" where
  "update E c m include exclude w =
     (case get_collection E c of
        Inl e \<Rightarrow> (Inl e, w)
      | Inr h \<Rightarrow>
          (case getattr m ''id'' of
             Inl e \<Rightarrow> (Inl e, w)
           | Inr i \<Rightarrow>
               store_update_one E h [(''_id'', i)]
                 (model_dict m (exclude_arg include exclude) include) w))"

definition find_all :: "env \<Rightarrow> manager \<Rightarrow> world \<Rightarrow> (error + model_instance list) \<times> world" where
  "find_all E self w =
     (case get_collection E (cls self) of
        Inl e \<Rightarrow> (Inl e, w)
      | Inr h \<Rightarrow>
          (case store_find E h (heap w (document_filter self)) w of
             (Inl e, w1) \<Rightarrow> (Inl e, w1)
           | (Inr docs, w1) \<Rightarrow> (Inr (map (parse_obj (model (cls self))) docs), w1)))"

definition find_one ::
  "env \<Rightarrow> manager \<Rightarrow> val list \<Rightarrow> bool \<Rightarrow> world \<Rightarrow> (error + model_instance option) \<times> world" where
  "find_one E self args raise_exception w =
     (let (args', w1) =
            (case args of
               VObjectId i # rest \<Rightarrow>
                 (rest, w\<lparr>heap := (heap w)(document_filter self :=
                              dict_update (heap w (document_filter self)) [(''_id'', VObjectId i)])\<rparr>)
             | _ \<Rightarrow> (args, w))
      in case get_collection E (cls self) of
           Inl e \<Rightarrow> (Inl e, w1)
         | Inr h \<Rightarrow>
             (case store_find_one E h (heap w1 (document_filter self)) args' w1 of
                (Inl e, w2) \<Rightarrow> (Inl e, w2)
              | (Inr None, w2) \<Rightarrow>
                  if raise_exception then (Inl (DocumentNotFound (heap w2 (document_filter self))), w2)
                  else (Inr None, w2)
              | (Inr (Some document), w2) \<Rightarrow>
                  (Inr (Some (parse_obj (model (cls self)) document)), w2)))"

definition delete_many :: "env \<Rightarrow> manager \<Rightarrow> world \<Rightarrow> (error + nat) \<times> world" where
  "delete_many E self w =
     (case get_collection E (cls self) of
        Inl e \<Rightarrow> (Inl e, w)
      | Inr h \<Rightarrow> store_delete_many E h (heap w (document_filter self)) w)"

definition count_m :: "env \<Rightarrow> manager \<Rightarrow> world \<Rightarrow> (error + nat) \<times> world" where
  \<comment> \<open>\<^verbatim>\<open>BaseModelManager.count\<close>\<close>
  "count_m E self w =
     (case get_collection E (cls self) of
        Inl e \<Rightarrow> (Inl e, w)
      | Inr h \<Rightarrow> store_count_documents E h (heap w (document_filter self)) w)"

text \<open>
  \<^verbatim>\<open>delete\<close> calls itself through \<^verbatim>\<open>obj.delete()\<close> for every fetched child and has no
  guard against a cycle. The first argument is the number of nested \<^verbatim>\<open>delete\<close> calls the
  interpreter still allows: at none, \<^verbatim>\<open>RecursionError\<close> is raised. The two loops are
  \<open>delete_edges\<close> (over \<^verbatim>\<open>cls._relation_map\<close>) and \<open>delete_objs\<close> (over \<^verbatim>\<open>objs\<close>);
  \<open>fetch_children\<close> is the right-hand side of the assignment to \<^verbatim>\<open>objs\<close>.
  \<^verbatim>\<open>obj.delete()\<close> is \<^verbatim>\<open>self.manager.delete(self)\<close>, with the \<^verbatim>\<open>manager\<close> attribute
  of the class of \<^verbatim>\<open>obj\<close> (the loop variable is \<open>child\<close> here).
\<close>

definition fetch_children ::
  "env \<Rightarrow> model_instance \<Rightarrow> edge \<Rightarrow> world \<Rightarrow> (error + model_instance list) \<times> world" where
  \<comment> \<open>\<^verbatim>\<open>await _cls.manager({field_name: getattr(model, model_field_name)}).find_all()\<close>\<close>
  "fetch_children E m edge w =
     (case edge of (model_cls, field_name, model_field_name) \<Rightarrow>
        (case getattr m model_field_name of
           Inl e \<Rightarrow> (Inl e, w)
         | Inr v \<Rightarrow>
             (let (a, w1) = alloc [(field_name, v)] w;
                  (mgr, w2) = init (manager_attr E model_cls) (Some a) w1
              in find_all E mgr w2)))"

fun delete :: "nat \<Rightarrow> env \<Rightarrow> manager_class \<Rightarrow> model_instance \<Rightarrow> world \<Rightarrow> (error + nat) \<times> world"
and delete_edges :: "nat \<Rightarrow> env \<Rightarrow> model_instance \<Rightarrow> edge list \<Rightarrow> world \<Rightarrow> (error + unit) \<times> world"
and delete_objs :: "nat \<Rightarrow> env \<Rightarrow> model_instance list \<Rightarrow> world \<Rightarrow> (error + unit) \<times> world" where
  "delete 0 E c m w = (Inl RecursionError, w)"
| "delete (Suc n) E c m w =
     (case delete_edges n E m (class_relation_map w) w of
        (Inl e, w1) \<Rightarrow> (Inl e, w1)
      | (Inr _, w1) \<Rightarrow>
          (case get_collection E c of
             Inl e \<Rightarrow> (Inl e, w1)
           | Inr h \<Rightarrow>
               (case getattr m ''id'' of
                  Inl e \<Rightarrow> (Inl e, w1)
                | Inr i \<Rightarrow> store_delete_one E h [(''_id'', i)] w1)))"
| "delete_edges n E m [] w = (Inr (), w)"
| "delete_edges n E m (edge # rest) w =
     (case fetch_children E m edge w of
        (Inl e, w1) \<Rightarrow> (Inl e, w1)
      | (Inr objs, w1) \<Rightarrow>
          (case delete_objs n E objs w1 of
             (Inl e, w2) \<Rightarrow> (Inl e, w2)
           | (Inr _, w2) \<Rightarrow> delete_edges n E m rest w2))"
| "delete_objs n E [] w = (Inr (), w)"
| "delete_objs n E (child # objs) w =
     (case delete n E (manager_attr E (model_class child)) child w of
        (Inl e, w1) \<Rightarrow> (Inl e, w1)
      | (Inr _, w1) \<Rightarrow> delete_objs n E objs w1)"

section \<open>Relations\<close>





text \<open>
  \<^verbatim>\<open>cls.relation_map(field_name, model_field_name)(model_cls)\<close> appends the edge to
  \<^verbatim>\<open>cls._relation_map\<close> and binds three generated functions by name on the classes.
  The generated functions are modelled with the variables they close over as arguments.
\<close>

definition relation_map :: "manager_class \<Rightarrow> string \<Rightarrow> string \<Rightarrow> string \<Rightarrow> world \<Rightarrow> world" where
  "relation_map c field_name model_field_name model_cls w =
     w\<lparr>class_relation_map := class_relation_map w @ [(model_cls, field_name, model_field_name)]\<rparr>"

definition related_model_set ::
  "env \<Rightarrow> string \<Rightarrow> string \<Rightarrow> string \<Rightarrow> model_instance \<Rightarrow> world \<Rightarrow> (error + manager) \<times> world" where
  "related_model_set E model_cls field_name model_field_name self w =
     (case getattr self model_field_name of
        Inl e \<Rightarrow> (Inl e, w)
      | Inr v \<Rightarrow>
          (let (a, w1) = alloc [(field_name, v)] w;
               (mgr, w2) = init (manager_attr E model_cls) (Some a) w1
           in (Inr mgr, w2)))"




section \<open>A concrete program\<close>

text \<open>
  Three manager classes, a store that matches a filter by equality of every listed field
  and never fails, and the getter that resolves every collection name to itself.
\<close>

definition UserModelManager :: manager_class where
  "UserModelManager = \<lparr>class_name = ''UserModelManager'', model = ''User'', collection = ''users''\<rparr>"

definition PostModelManager :: manager_class where
  "PostModelManager = \<lparr>class_name = ''PostModelManager'', model = ''Post'', collection = ''posts''\<rparr>"

definition CommentModelManager :: manager_class where
  "CommentModelManager =
     \<lparr>class_name = ''CommentModelManager'', model = ''Comment'', collection = ''comments''\<rparr>"

definition BaseModelManager :: manager_class where
  "BaseModelManager = \<lparr>class_name = ''BaseModelManager'', model = ''Model'', collection = []\<rparr>"

definition eq_matches :: "dict \<Rightarrow> dict \<Rightarrow> bool" where
  "eq_matches flt document = list_all (\<lambda>(k, v). map_of document k = Some v) flt"

definition bound_manager :: "string \<Rightarrow> manager_class" where
  "bound_manager model_cls =
     (if model_cls = ''User'' then UserModelManager
      else if model_cls = ''Post'' then PostModelManager
      else if model_cls = ''Comment'' then CommentModelManager
      else BaseModelManager)"

definition E0 :: env where
  "E0 = \<lparr>collection_getter = Inr, store_fails = (\<lambda>n. False), store_matches = eq_matches,
         manager_attr = bound_manager\<rparr>"

definition empty_world :: world where
  "empty_world = \<lparr>db = (\<lambda>h. []), trace = [], next_oid = 100, heap = (\<lambda>a. []), next_ref = 0,
                  class_relation_map = []\<rparr>"

text \<open>
  A blog: posts refer to a user, comments refer to a post. The relations are declared
  through the manager of the parent, each once, in this order.
\<close>

type_synonym registration = "manager_class \<times> string \<times> string \<times> string"
  \<comment> \<open>\<^verbatim>\<open>cls.relation_map(field_name, model_field_name)(model_cls)\<close> as
      \<open>(cls, field_name, model_field_name, model_cls)\<close>\<close>

definition register_all :: "registration list \<Rightarrow> world \<Rightarrow> world" where
  "register_all regs w =
     fold (\<lambda>(c, field_name, model_field_name, model_cls).
             relation_map c field_name model_field_name model_cls) regs w"

definition blog_registrations :: "registration list" where
  "blog_registrations =
     [(UserModelManager, ''user_id'', ''id'', ''Post''),
      (PostModelManager, ''post_id'', ''id'', ''Comment'')]"

definition blog_db :: "string \<Rightarrow> dict list" where
  "blog_db h =
     (if h = ''users'' then [[(''_id'', VObjectId 1), (''name'', VStr ''ann'')]]
      else if h = ''posts'' then [[(''_id'', VObjectId 2), (''user_id'', VObjectId 1)],
                                  [(''_id'', VObjectId 4), (''user_id'', VObjectId 1)]]
      else if h = ''comments'' then [[(''_id'', VObjectId 3), (''post_id'', VObjectId 2)]]
      else [])"

definition blog_world :: world where
  "blog_world = (register_all blog_registrations empty_world)\<lparr>db := blog_db\<rparr>"

definition user1 :: model_instance where
  "user1 = Model ''User'' [(''id'', VObjectId 1), (''name'', VStr ''ann'')] []"

definition post2 :: model_instance where
  "post2 = Model ''Post'' [(''id'', VObjectId 2), (''user_id'', VObjectId 1)] []"

definition post4 :: model_instance where
  "post4 = Model ''Post'' [(''id'', VObjectId 4), (''user_id'', VObjectId 1)] []"


definition new_user :: model_instance where
  \<comment> \<open>a record that was never inserted\<close>
  "new_user = Model ''User'' [(''id'', VObjectId 7), (''name'', VStr ''bob''), (''age'', VInt 3)] []"

definition E_fail :: env where
  \<comment> \<open>as \<open>E0\<close>, but the store fails its tenth call\<close>
  "E_fail = E0\<lparr>store_fails := (\<lambda>n. n = 9)\<rparr>"

text \<open>
  Two manager instances with their dict objects: the posts of user 1, and all users.
\<close>

definition posts_of_user1 :: manager where
  "posts_of_user1 = \<lparr>cls = PostModelManager, document_filter = 0\<rparr>"

definition all_users :: manager where
  "all_users = \<lparr>cls = UserModelManager, document_filter = 1\<rparr>"

definition scoped_world :: world where
  "scoped_world =
     blog_world\<lparr>heap := (\<lambda>a. if a = 0 then [(''user_id'', VObjectId 1)] else []), next_ref := 2\<rparr>"

text \<open>
  Two predicates with disjoint keys, and the states of the failing cascade: after the
  posts of user 1 are fetched, after the first of them is deleted, and after the
  \<^verbatim>\<open>delete\<close> of the second has failed.
\<close>

definition title_filter :: dict where
  "title_filter = [(''title'', VStr ''x'')]"

definition draft_filter :: dict where
  "draft_filter = [(''draft'', VInt 0)]"

definition after_fetch :: world where
  "after_fetch = snd (fetch_children E_fail user1 (''Post'', ''user_id'', ''id'') blog_world)"

definition after_post2 :: world where
  "after_post2 = snd (delete_objs 2 E_fail [post2] after_fetch)"

definition after_failure :: world where
  "after_failure = snd (delete 2 E_fail PostModelManager post4 after_post2)"


section \<open>Notions the properties are stated with\<close>

text \<open>
  The edges appended through \<^verbatim>\<open>M.relation_map\<close>, in order: what the specification
  calls the edges registered against the manager type \<open>M\<close>.
\<close>

definition registered_against :: "manager_class \<Rightarrow> registration list \<Rightarrow> edge list" where
  "registered_against M regs =
     map (\<lambda>(c, field_name, model_field_name, model_cls). (model_cls, field_name, model_field_name))
       (filter (\<lambda>(c, field_name, model_field_name, model_cls). c = M) regs)"

text \<open>
  The merge of two predicates with disjoint keys has the items of both.
\<close>

definition merge :: "dict \<Rightarrow> dict \<Rightarrow> dict" where
  "merge a b = a @ b"

text \<open>
  The calls of a cascade, by record, with the answers the store gave. \<open>delete_run\<close> is the
  run of one \<^verbatim>\<open>delete\<close>: the run over all edges of the registry \<open>rm\<close>, then the answered
  \<^verbatim>\<open>delete_one\<close> of the record's own document as the last call. \<open>edges_run\<close> is the loop
  over the edges: for each edge, in list order, the fetch for that edge, then the run over
  the fetched children, then the remaining edges. \<open>objs_run\<close> is the loop over the fetched
  children, in the order of the store's answer: the whole run of the first child's
  \<^verbatim>\<open>delete\<close>, then the remaining children. Nothing else is a run: every call of the
  sequence is accounted for.
\<close>

inductive delete_run ::
    "env \<Rightarrow> edge list \<Rightarrow> manager_class \<Rightarrow> model_instance \<Rightarrow> nat \<Rightarrow> (call \<times> answer) list \<Rightarrow> bool"
  and edges_run ::
    "env \<Rightarrow> edge list \<Rightarrow> model_instance \<Rightarrow> edge list \<Rightarrow> (call \<times> answer) list \<Rightarrow> bool"
  and objs_run :: "env \<Rightarrow> edge list \<Rightarrow> model_instance list \<Rightarrow> (call \<times> answer) list \<Rightarrow> bool"
  for E :: env and rm :: "edge list"
where
  parent_last:
    "edges_run E rm m rm cs \<Longrightarrow> get_collection E c = Inr h \<Longrightarrow> getattr m ''id'' = Inr i \<Longrightarrow>
     delete_run E rm c m k (cs @ [(DeleteOne h [(''_id'', i)], Deleted k)])"
| no_edge: "edges_run E rm m [] []"
| next_edge:
    "getattr m model_field_name = Inr v \<Longrightarrow>
     get_collection E (manager_attr E model_cls) = Inr h \<Longrightarrow>
     objs_run E rm (map (parse_obj (model (manager_attr E model_cls))) docs) cs \<Longrightarrow>
     edges_run E rm m rest cs' \<Longrightarrow>
     edges_run E rm m ((model_cls, field_name, model_field_name) # rest)
       ((Find h [(field_name, v)], Found docs) # cs @ cs')"
| no_child: "objs_run E rm [] []"
| next_child:
    "delete_run E rm (manager_attr E (model_class child)) child k cs \<Longrightarrow>
     objs_run E rm objs cs' \<Longrightarrow>
     objs_run E rm (child # objs) (cs @ cs')"






text \<open>
  A recorded call that may have removed the document \<open>d\<close> from the collection \<open>h\<close>: an
  answered \<^verbatim>\<open>delete_one\<close> on \<open>h\<close> whose filter matches \<open>d\<close>.
\<close>

fun deletes_doc :: "env \<Rightarrow> string \<Rightarrow> dict \<Rightarrow> call \<times> answer \<Rightarrow> bool" where
  "deletes_doc E h d (DeleteOne h' flt, Deleted k) = (h' = h \<and> store_matches E flt d)"
| "deletes_doc E h d _ = False"

definition only_deletes :: "env \<Rightarrow> world \<Rightarrow> world \<Rightarrow> bool" where
  "only_deletes E w w' \<longleftrightarrow>
     (\<exists>evs. trace w' = trace w @ evs
        \<and> (\<forall>h d. d \<in> set (db w' h) \<longrightarrow> d \<in> set (db w h))
        \<and> (\<forall>h d. d \<in> set (db w h) \<longrightarrow> \<not> list_ex (deletes_doc E h d) evs
              \<longrightarrow> d \<in> set (db w' h)))"

text \<open>
  The document of \<^verbatim>\<open>insert\<close> as the specification words it: the fields restricted to
  \<^verbatim>\<open>include\<close> when it is given, otherwise the fields minus \<^verbatim>\<open>exclude\<close>, which
  defaults to the identifier field.
\<close>

definition spec_document :: "model_instance \<Rightarrow> string set option \<Rightarrow> string set option \<Rightarrow> dict" where
  "spec_document m include exclude =
     map (\<lambda>(k, v). (by_alias k, v))
       (filter (\<lambda>(k, v). case include of
                            Some s \<Rightarrow> k \<in> s
                          | None \<Rightarrow> k \<notin> (case exclude of None \<Rightarrow> {''id''} | Some x \<Rightarrow> x))
          (field_values m))"

text \<open>
  The same with the identifier field always left out when \<^verbatim>\<open>include\<close> is not given.
\<close>

definition amended_document :: "model_instance \<Rightarrow> string set option \<Rightarrow> string set option \<Rightarrow> dict" where
  "amended_document m include exclude =
     map (\<lambda>(k, v). (by_alias k, v))
       (filter (\<lambda>(k, v). case include of
                            Some s \<Rightarrow> k \<in> s
                          | None \<Rightarrow> k \<noteq> ''id'' \<and> k \<notin> (case exclude of None \<Rightarrow> {} | Some x \<Rightarrow> x))
          (field_values m))"

section \<open>Dictionaries\<close>

lemma map_of_dict_update: "map_of (dict_update d e) = map_of d ++ map_of (rev e)"
proof (induction e arbitrary: d)
  case Nil
  show ?case by (simp add: dict_update_def)
next
  case (Cons x e)
  obtain k v where x: "x = (k, v)" by (cases x)
  have "map_of (dict_update d (x # e)) = map_of (dict_update (AList.update k v d) e)"
    by (simp add: dict_update_def x)
  also have "\<dots> = map_of (AList.update k v d) ++ map_of (rev e)"
    by (rule Cons.IH)
  also have "\<dots> = map_of d ++ map_of (rev (x # e))"
    by (simp add: x update_conv')
  finally show ?case .
qed

lemma map_of_dict_update_item: "map_of (dict_update d [(k, v)]) = (map_of d)(k \<mapsto> v)"
  by (simp add: dict_update_def update_conv')

section \<open>Narrowing a manager\<close>

lemma filter_m_eq:
  "filter_m m x w =
     (let d = dict_update (heap w (document_filter m)) (or_empty x) in
      if d = []
      then (\<lparr>cls = cls m, document_filter = Suc (next_ref w)\<rparr>,
            w\<lparr>heap := (heap w)(next_ref w := d, Suc (next_ref w) := []),
              next_ref := Suc (Suc (next_ref w))\<rparr>)
      else (\<lparr>cls = cls m, document_filter = next_ref w\<rparr>,
            w\<lparr>heap := (heap w)(next_ref w := d), next_ref := Suc (next_ref w)\<rparr>))"
  by (simp add: filter_m_def init_def alloc_def Let_def)

lemma filter_m_effect:
  assumes "filter_m m x w = (m', w')"
  shows "heap w' (document_filter m') = dict_update (heap w (document_filter m)) (or_empty x)"
    and "cls m' = cls m"
    and "next_ref w \<le> document_filter m'"
    and "a < next_ref w \<Longrightarrow> heap w' a = heap w a"
    and "next_ref w \<le> next_ref w'"
proof -
  let ?d = "dict_update (heap w (document_filter m)) (or_empty x)"
  show "heap w' (document_filter m') = ?d"
    using assms unfolding filter_m_eq Let_def by (cases "?d = []") auto
  show "cls m' = cls m"
    using assms unfolding filter_m_eq Let_def by (cases "?d = []") auto
  show "next_ref w \<le> document_filter m'"
    using assms unfolding filter_m_eq Let_def by (cases "?d = []") auto
  show "a < next_ref w \<Longrightarrow> heap w' a = heap w a"
    using assms unfolding filter_m_eq Let_def by (cases "?d = []") auto
  show "next_ref w \<le> next_ref w'"
    using assms unfolding filter_m_eq Let_def by (cases "?d = []") auto
qed

text \<open>
  C6. For predicates \<open>a\<close> and \<open>b\<close> with disjoint keys, the standing filter of
  \<^verbatim>\<open>m.filter(a).filter(b)\<close> is, as a dict, the standing filter of
  \<^verbatim>\<open>m.filter(merge(a, b))\<close>, and the order of the two narrowings does not matter.
  For every argument \<open>x\<close> (a predicate or \<^verbatim>\<open>None\<close>), \<^verbatim>\<open>m.filter(x)\<close> returns a manager
  of the same class on a dict object of its own, and the dict object of \<open>m\<close> is what it
  was, also after the second narrowing.
\<close>

theorem filter_filter_merge:
  assumes "fst ` set a \<inter> fst ` set b = {}"
    and "document_filter m < next_ref w"
    and "filter_m m (Some a) w = (ma, wa)"
    and "filter_m ma (Some b) wa = (mab, wab)"
    and "filter_m m (Some (merge a b)) w = (mm, wm)"
    and "filter_m m x w = (mx, wx)"
  shows "map_of (heap wab (document_filter mab)) = map_of (heap wm (document_filter mm))
       \<and> map_of (heap wab (document_filter mab)) =
           map_of (dict_update (dict_update (heap w (document_filter m)) b) a)
       \<and> heap wx (document_filter m) = heap w (document_filter m)
       \<and> heap wab (document_filter m) = heap w (document_filter m)
       \<and> document_filter mx \<noteq> document_filter m
       \<and> cls mx = cls m"
proof -
  let ?f = "heap w (document_filter m)"
  have wa: "heap wa (document_filter m) = ?f"
    using filter_m_effect(4)[OF assms(3) assms(2)] .
  have ma: "heap wa (document_filter ma) = dict_update ?f a"
    using filter_m_effect(1)[OF assms(3)] by (simp add: or_empty_def)
  have ab: "heap wab (document_filter mab) = dict_update (dict_update ?f a) b"
    using filter_m_effect(1)[OF assms(4)] ma by (simp add: or_empty_def)
  have mm: "heap wm (document_filter mm) = dict_update ?f (merge a b)"
    using filter_m_effect(1)[OF assms(5)] by (simp add: or_empty_def)
  have c1: "map_of (heap wab (document_filter mab)) = map_of (heap wm (document_filter mm))"
    unfolding ab mm by (simp add: merge_def dict_update_def)
  have dom: "dom (map_of (rev a)) \<inter> dom (map_of (rev b)) = {}"
    using assms(1) by (simp add: dom_map_of_conv_image_fst)
  have "map_of (dict_update (dict_update ?f a) b) = map_of ?f ++ (map_of (rev a) ++ map_of (rev b))"
    by (simp add: map_of_dict_update)
  also have "\<dots> = map_of ?f ++ (map_of (rev b) ++ map_of (rev a))"
    using map_add_comm[OF dom] by simp
  also have "\<dots> = map_of (dict_update (dict_update ?f b) a)"
    by (simp add: map_of_dict_update)
  finally have c2: "map_of (heap wab (document_filter mab)) =
      map_of (dict_update (dict_update ?f b) a)"
    unfolding ab .
  have lt: "document_filter m < next_ref wa"
    using filter_m_effect(5)[OF assms(3)] assms(2) by simp
  have c3: "heap wx (document_filter m) = ?f"
    using filter_m_effect(4)[OF assms(6) assms(2)] .
  have c4: "heap wab (document_filter m) = ?f"
    using filter_m_effect(4)[OF assms(4) lt] wa by simp
  have c5: "document_filter mx \<noteq> document_filter m"
    using filter_m_effect(3)[OF assms(6)] assms(2) by simp
  have c6: "cls mx = cls m"
    using filter_m_effect(2)[OF assms(6)] .
  show ?thesis using c1 c2 c3 c4 c5 c6 by blast
qed

text \<open>
  The posts of user 1, narrowed by a title and by a draft flag.
\<close>

theorem filter_filter_merge_witness:
  "fst ` set title_filter \<inter> fst ` set draft_filter = {}
   \<and> document_filter posts_of_user1 < next_ref scoped_world
   \<and> (let (ma, wa) = filter_m posts_of_user1 (Some title_filter) scoped_world;
           (mab, wab) = filter_m ma (Some draft_filter) wa;
           (mm, wm) = filter_m posts_of_user1 (Some (merge title_filter draft_filter)) scoped_world
       in map_of (heap wab (document_filter mab)) = map_of (heap wm (document_filter mm))
        \<and> heap wab (document_filter posts_of_user1) = [(''user_id'', VObjectId 1)]
        \<and> document_filter mab \<noteq> document_filter posts_of_user1)"
proof -
  obtain ma wa where 1: "filter_m posts_of_user1 (Some title_filter) scoped_world = (ma, wa)"
    by (cases "filter_m posts_of_user1 (Some title_filter) scoped_world")
  obtain mab wab where 2: "filter_m ma (Some draft_filter) wa = (mab, wab)"
    by (cases "filter_m ma (Some draft_filter) wa")
  obtain mm wm where
    3: "filter_m posts_of_user1 (Some (merge title_filter draft_filter)) scoped_world = (mm, wm)"
    by (cases "filter_m posts_of_user1 (Some (merge title_filter draft_filter)) scoped_world")
  have d: "fst ` set title_filter \<inter> fst ` set draft_filter = {}"
    by (simp add: title_filter_def draft_filter_def)
  have l: "document_filter posts_of_user1 < next_ref scoped_world"
    by (simp add: posts_of_user1_def scoped_world_def)
  have l2: "document_filter posts_of_user1 < next_ref wa"
    using filter_m_effect(5)[OF 1] l by simp
  have h: "heap scoped_world (document_filter posts_of_user1) = [(''user_id'', VObjectId 1)]"
    by (simp add: posts_of_user1_def scoped_world_def)
  from filter_filter_merge[OF d l 1 2 3 1]
  have "map_of (heap wab (document_filter mab)) = map_of (heap wm (document_filter mm))"
    and "heap wab (document_filter posts_of_user1) = heap scoped_world (document_filter posts_of_user1)"
    by blast+
  moreover have "document_filter mab \<noteq> document_filter posts_of_user1"
    using filter_m_effect(3)[OF 2] l2 by simp
  ultimately show ?thesis using d l 1 2 3 h by simp
qed

section \<open>Looking one document up\<close>

lemma find_one_eq:
  "find_one E m args raise_exception w =
     (let args' = (case args of VObjectId i # rest \<Rightarrow> rest | _ \<Rightarrow> args);
          flt = (case args of
                   VObjectId i # rest \<Rightarrow>
                     dict_update (heap w (document_filter m)) [(''_id'', VObjectId i)]
                 | _ \<Rightarrow> heap w (document_filter m));
          w1 = w\<lparr>heap := (heap w)(document_filter m := flt)\<rparr>
      in case get_collection E (cls m) of
           Inl e \<Rightarrow> (Inl e, w1)
         | Inr h \<Rightarrow>
             (if store_fails E (length (trace w))
              then (Inl (PersistenceError (FindOne h flt args')),
                    w1\<lparr>trace := trace w @ [(FindOne h flt args', Failed)]\<rparr>)
              else (case List.find (store_matches E flt) (db w h) of
                      None \<Rightarrow>
                        (if raise_exception then Inl (DocumentNotFound flt) else Inr None,
                         w1\<lparr>trace := trace w @ [(FindOne h flt args', FoundOne None)]\<rparr>)
                    | Some d \<Rightarrow>
                        (Inr (Some (parse_obj (model (cls m)) d)),
                         w1\<lparr>trace := trace w @ [(FindOne h flt args', FoundOne (Some d))]\<rparr>))))"
proof -
  have id: "w\<lparr>heap := (heap w)(document_filter m := heap w (document_filter m))\<rparr> = w"
    by simp
  show ?thesis
  proof (cases "\<exists>i rest. args = VObjectId i # rest")
    case True
    then obtain i rest where a: "args = VObjectId i # rest" by blast
    show ?thesis
      unfolding a find_one_def store_find_one_def fails_now_def answered_def
      by (simp add: Let_def split: sum.split option.split)
  next
    case False
    then have c: "(case args of VObjectId i # rest \<Rightarrow> f i rest | _ \<Rightarrow> g) = g" for f and g :: 'b
      by (cases args) (auto split: val.split)
    show ?thesis
      unfolding find_one_def store_find_one_def fails_now_def answered_def c
      by (simp add: Let_def id split: sum.split option.split)
  qed
qed

text \<open>
  C5. When the collection resolves, the store answers the call and no document of the
  collection matches the filter of the lookup (the standing filter, narrowed by the
  identifier when one is passed), \<^verbatim>\<open>find_one\<close> with \<^verbatim>\<open>raise_exception=False\<close> returns
  \<^verbatim>\<open>None\<close> and raises nothing, and with \<^verbatim>\<open>raise_exception=True\<close> it raises the
  not-found error (the \<^verbatim>\<open>ValueError\<close> that names the filter).
\<close>

theorem find_one_not_found:
  assumes "get_collection E (cls m) = Inr h"
    and "\<not> store_fails E (length (trace w))"
    and "flt = (case args of
                  VObjectId i # rest \<Rightarrow>
                    dict_update (heap w (document_filter m)) [(''_id'', VObjectId i)]
                | _ \<Rightarrow> heap w (document_filter m))"
    and "\<forall>d \<in> set (db w h). \<not> store_matches E flt d"
  shows "fst (find_one E m args False w) = Inr None
       \<and> fst (find_one E m args True w) = Inl (DocumentNotFound flt)"
proof -
  have "List.find (store_matches E flt) (db w h) = None"
    using assms(4) by (simp add: find_None_iff)
  then show ?thesis
    unfolding find_one_eq Let_def assms(3)[symmetric] using assms(1,2) by simp
qed

text \<open>
  No user has the identifier 9.
\<close>

theorem find_one_not_found_witness:
  "fst (find_one E0 all_users [VObjectId 9] False scoped_world) = Inr None
   \<and> fst (find_one E0 all_users [VObjectId 9] True scoped_world) =
       Inl (DocumentNotFound [(''_id'', VObjectId 9)])"
proof -
  have 1: "get_collection E0 (cls all_users) = Inr ''users''" by code_simp
  have 2: "\<not> store_fails E0 (length (trace scoped_world))" by code_simp
  have 3: "[(''_id'', VObjectId 9)] =
      (case [VObjectId 9] of
         VObjectId i # rest \<Rightarrow>
           dict_update (heap scoped_world (document_filter all_users)) [(''_id'', VObjectId i)]
       | _ \<Rightarrow> heap scoped_world (document_filter all_users))"
    by code_simp
  have 4: "\<forall>d \<in> set (db scoped_world ''users''). \<not> store_matches E0 [(''_id'', VObjectId 9)] d"
    by code_simp
  show ?thesis using find_one_not_found[OF 1 2 3 4] .
qed

lemma find_all_calls:
  "get_collection E (cls m) = Inr h \<Longrightarrow>
   map fst (trace (snd (find_all E m w))) =
     map fst (trace w) @ [Find h (heap w (document_filter m))]"
  by (simp add: find_all_def store_find_def answered_def Let_def)

lemma delete_many_calls:
  "get_collection E (cls m) = Inr h \<Longrightarrow>
   map fst (trace (snd (delete_many E m w))) =
     map fst (trace w) @ [DeleteMany h (heap w (document_filter m))]"
  by (simp add: delete_many_def store_delete_many_def answered_def Let_def)

lemma count_m_calls:
  "get_collection E (cls m) = Inr h \<Longrightarrow>
   map fst (trace (snd (count_m E m w))) =
     map fst (trace w) @ [CountDocuments h (heap w (document_filter m))]"
  by (simp add: count_m_def store_count_documents_def answered_def Let_def)

lemma find_one_calls:
  "get_collection E (cls m) = Inr h \<Longrightarrow>
   map fst (trace (snd (find_one E m [] b w))) =
     map fst (trace w) @ [FindOne h (heap w (document_filter m)) []]"
  unfolding find_one_eq Let_def by (simp split: option.split)

lemma find_one_heap:
  "heap (snd (find_one E m (VObjectId i # rest) b w)) =
     (heap w)(document_filter m := dict_update (heap w (document_filter m)) [(''_id'', VObjectId i)])"
  unfolding find_one_eq Let_def by (simp split: sum.split option.split)

text \<open>
  C10. \<^verbatim>\<open>m.find_one(i, ...)\<close> with an \<^verbatim>\<open>ObjectId\<close> \<open>i\<close> stores \<^verbatim>\<open>_id == i\<close> in the dict
  object that is the standing filter of \<open>m\<close>, whatever the lookup returns or raises, and
  changes no other key and no other dict object. The operations that follow on the same
  manager (\<^verbatim>\<open>find_all\<close>, \<^verbatim>\<open>delete_many\<close>, \<^verbatim>\<open>count\<close>, \<^verbatim>\<open>find_one\<close>) pass that narrowed
  filter to the store.
\<close>

theorem find_one_narrows_receiver:
  assumes "find_one E m (VObjectId i # rest) raise_exception w = (r, w')"
  shows "heap w' (document_filter m) =
           dict_update (heap w (document_filter m)) [(''_id'', VObjectId i)]
       \<and> map_of (heap w' (document_filter m)) =
           (map_of (heap w (document_filter m)))(''_id'' \<mapsto> VObjectId i)
       \<and> (\<forall>a. a \<noteq> document_filter m \<longrightarrow> heap w' a = heap w a)
       \<and> (\<forall>h. get_collection E (cls m) = Inr h \<longrightarrow>
            map fst (trace (snd (find_all E m w'))) =
              map fst (trace w') @ [Find h (heap w' (document_filter m))]
          \<and> map fst (trace (snd (delete_many E m w'))) =
              map fst (trace w') @ [DeleteMany h (heap w' (document_filter m))]
          \<and> map fst (trace (snd (count_m E m w'))) =
              map fst (trace w') @ [CountDocuments h (heap w' (document_filter m))]
          \<and> (\<forall>b. map fst (trace (snd (find_one E m [] b w'))) =
              map fst (trace w') @ [FindOne h (heap w' (document_filter m)) []]))"
proof -
  have w': "w' = snd (find_one E m (VObjectId i # rest) raise_exception w)"
    using assms by simp
  have h: "heap w' = (heap w)(document_filter m :=
             dict_update (heap w (document_filter m)) [(''_id'', VObjectId i)])"
    unfolding w' by (rule find_one_heap)
  show ?thesis
    using h find_all_calls delete_many_calls count_m_calls find_one_calls
    by (simp add: map_of_dict_update_item)
qed

text \<open>
  After the lookup of user 1 the manager of all users finds that one user only.
\<close>

theorem find_one_narrows_receiver_witness:
  "heap (snd (find_one E0 all_users [VObjectId 1] True scoped_world)) (document_filter all_users) =
     [(''_id'', VObjectId 1)]
   \<and> map fst (trace (snd (find_all E0 all_users
        (snd (find_one E0 all_users [VObjectId 1] True scoped_world))))) =
       [FindOne ''users'' [(''_id'', VObjectId 1)] [], Find ''users'' [(''_id'', VObjectId 1)]]"
proof -
  let ?w' = "snd (find_one E0 all_users [VObjectId 1] True scoped_world)"
  have p: "find_one E0 all_users [VObjectId 1] True scoped_world =
      (fst (find_one E0 all_users [VObjectId 1] True scoped_world), ?w')"
    by simp
  have g: "get_collection E0 (cls all_users) = Inr ''users''" by code_simp
  have e: "dict_update (heap scoped_world (document_filter all_users)) [(''_id'', VObjectId 1)] =
      [(''_id'', VObjectId 1)]"
    by code_simp
  have t: "map fst (trace ?w') = [FindOne ''users'' [(''_id'', VObjectId 1)] []]"
    by code_simp
  from find_one_narrows_receiver[OF p] g
  have a: "heap ?w' (document_filter all_users) =
      dict_update (heap scoped_world (document_filter all_users)) [(''_id'', VObjectId 1)]"
    and b: "map fst (trace (snd (find_all E0 all_users ?w'))) =
      map fst (trace ?w') @ [Find ''users'' (heap ?w' (document_filter all_users))]"
    by blast+
  show ?thesis using a b unfolding e t by simp
qed

section \<open>Bulk delete\<close>

text \<open>
  C7. \<^verbatim>\<open>delete_many\<close> issues one store call, the \<^verbatim>\<open>delete_many\<close> of the manager's own
  collection with the standing filter, and nothing of the cascade. Every other
  collection is as it was, and so is every document of the own collection that the
  standing filter does not match. What is registered in \<^verbatim>\<open>_relation_map\<close> makes no
  difference to the result.
\<close>

theorem delete_many_no_cascade:
  assumes "get_collection E (cls m) = Inr h"
    and "delete_many E m w = (r, w')"
    and "flt = heap w (document_filter m)"
  shows "map fst (trace w') = map fst (trace w) @ [DeleteMany h flt]
       \<and> (\<forall>c. c \<noteq> h \<longrightarrow> db w' c = db w c)
       \<and> filter (\<lambda>d. \<not> store_matches E flt d) (db w' h) =
           filter (\<lambda>d. \<not> store_matches E flt d) (db w h)
       \<and> (db w' h = db w h \<or> db w' h = filter (\<lambda>d. \<not> store_matches E flt d) (db w h))
       \<and> delete_many E m (w\<lparr>class_relation_map := rm\<rparr>) = (r, w'\<lparr>class_relation_map := rm\<rparr>)"
  using assms(1,2) unfolding assms(3)
  by (auto simp: delete_many_def store_delete_many_def answered_def fails_now_def Let_def
           split: if_splits)

text \<open>
  The posts of user 1 are deleted in bulk; the comment on one of them stays, with both relations registered.
\<close>

theorem delete_many_no_cascade_witness:
  "map fst (trace (snd (delete_many E0 posts_of_user1 scoped_world))) =
     [DeleteMany ''posts'' [(''user_id'', VObjectId 1)]]
   \<and> db (snd (delete_many E0 posts_of_user1 scoped_world)) ''comments'' =
       [[(''_id'', VObjectId 3), (''post_id'', VObjectId 2)]]
   \<and> db (snd (delete_many E0 posts_of_user1 scoped_world)) ''posts'' = []
   \<and> class_relation_map scoped_world =
       [(''Post'', ''user_id'', ''id''), (''Comment'', ''post_id'', ''id'')]"
proof -
  let ?w' = "snd (delete_many E0 posts_of_user1 scoped_world)"
  have g: "get_collection E0 (cls posts_of_user1) = Inr ''posts''" by code_simp
  have p: "delete_many E0 posts_of_user1 scoped_world =
      (fst (delete_many E0 posts_of_user1 scoped_world), ?w')"
    by simp
  have f: "[(''user_id'', VObjectId 1)] = heap scoped_world (document_filter posts_of_user1)"
    by code_simp
  have t: "map fst (trace scoped_world) = []" by code_simp
  have c: "db scoped_world ''comments'' = [[(''_id'', VObjectId 3), (''post_id'', VObjectId 2)]]"
    by code_simp
  have ps: "db ?w' ''posts'' = []" by code_simp
  have rm: "class_relation_map scoped_world =
      [(''Post'', ''user_id'', ''id''), (''Comment'', ''post_id'', ''id'')]"
    by code_simp
  from delete_many_no_cascade[OF g p f]
  have a: "map fst (trace ?w') = map fst (trace scoped_world) @
      [DeleteMany ''posts'' [(''user_id'', VObjectId 1)]]"
    and b: "\<forall>c. c \<noteq> ''posts'' \<longrightarrow> db ?w' c = db scoped_world c"
    by blast+
  have "db ?w' ''comments'' = db scoped_world ''comments''" using b by simp
  then show ?thesis using a ps rm unfolding t c by simp
qed

section \<open>Update\<close>

lemma update_first_same:
  "List.find P xs = Some d \<Longrightarrow> f d = d \<Longrightarrow> update_first P f xs = xs"
  by (induction xs) (auto split: if_splits)

text \<open>
  C9. When the collection resolves, the store answers the call and no stored document
  has the identifier of the record, \<^verbatim>\<open>update\<close> raises nothing: it returns the store's
  own result, with zero matched documents, and the store is as it was. An update that
  matches a document and changes nothing in it returns in the same way, with the store as
  it was; the two differ in the matched count of the raw result only.
\<close>

theorem update_zero_matched:
  assumes "get_collection E c = Inr h"
    and "getattr m ''id'' = Inr i"
    and "\<not> store_fails E (length (trace w))"
    and "\<forall>d \<in> set (db w h). \<not> store_matches E [(''_id'', i)] d"
    and "fields_set = model_dict m (exclude_arg include exclude) include"
  shows "update E c m include exclude w =
           (Inr \<lparr>matched_count = 0, modified_count = 0\<rparr>,
            w\<lparr>trace := trace w @ [(UpdateOne h [(''_id'', i)] fields_set,
                                   Updated \<lparr>matched_count = 0, modified_count = 0\<rparr>)]\<rparr>)
       \<and> (\<forall>w2 d. \<not> store_fails E (length (trace w2))
              \<and> List.find (store_matches E [(''_id'', i)]) (db w2 h) = Some d
              \<and> dict_update d fields_set = d \<longrightarrow>
            update E c m include exclude w2 =
              (Inr \<lparr>matched_count = 1, modified_count = 0\<rparr>,
               w2\<lparr>trace := trace w2 @ [(UpdateOne h [(''_id'', i)] fields_set,
                                       Updated \<lparr>matched_count = 1, modified_count = 0\<rparr>)]\<rparr>))"
proof -
  have none: "List.find (store_matches E [(''_id'', i)]) (db w h) = None"
    using assms(4) by (simp add: find_None_iff)
  have zero: "update E c m include exclude w =
           (Inr \<lparr>matched_count = 0, modified_count = 0\<rparr>,
            w\<lparr>trace := trace w @ [(UpdateOne h [(''_id'', i)] fields_set,
                                   Updated \<lparr>matched_count = 0, modified_count = 0\<rparr>)]\<rparr>)"
    using assms(1,2,3) none unfolding assms(5)
    by (simp add: update_def store_update_one_def answered_def fails_now_def Let_def)
  have noop: "update E c m include exclude w2 =
              (Inr \<lparr>matched_count = 1, modified_count = 0\<rparr>,
               w2\<lparr>trace := trace w2 @ [(UpdateOne h [(''_id'', i)] fields_set,
                                       Updated \<lparr>matched_count = 1, modified_count = 0\<rparr>)]\<rparr>)"
    if "\<not> store_fails E (length (trace w2))"
      and "List.find (store_matches E [(''_id'', i)]) (db w2 h) = Some d"
      and "dict_update d fields_set = d" for w2 d
  proof -
    have same: "update_first (store_matches E [(''_id'', i)])
                  (\<lambda>d. dict_update d fields_set) (db w2 h) = db w2 h"
      using update_first_same[OF that(2), of "\<lambda>d. dict_update d fields_set"] that(3) by simp
    show ?thesis
      using assms(1,2) that same unfolding assms(5)
      by (simp add: update_def store_update_one_def answered_def fails_now_def Let_def)
  qed
  show ?thesis using zero noop by blast
qed

text \<open>
  User 1 is updated in the empty store (no document matched), and in the blog (matched, nothing to change).
\<close>

theorem update_zero_matched_witness:
  "update E0 UserModelManager user1 None None empty_world =
     (Inr \<lparr>matched_count = 0, modified_count = 0\<rparr>,
      empty_world\<lparr>trace := trace empty_world @
        [(UpdateOne ''users'' [(''_id'', VObjectId 1)] [(''name'', VStr ''ann'')],
          Updated \<lparr>matched_count = 0, modified_count = 0\<rparr>)]\<rparr>)
   \<and> update E0 UserModelManager user1 None None blog_world =
     (Inr \<lparr>matched_count = 1, modified_count = 0\<rparr>,
      blog_world\<lparr>trace := trace blog_world @
        [(UpdateOne ''users'' [(''_id'', VObjectId 1)] [(''name'', VStr ''ann'')],
          Updated \<lparr>matched_count = 1, modified_count = 0\<rparr>)]\<rparr>)"
proof -
  have 1: "get_collection E0 UserModelManager = Inr ''users''" by code_simp
  have 2: "getattr user1 ''id'' = Inr (VObjectId 1)" by code_simp
  have 3: "\<not> store_fails E0 (length (trace empty_world))" by code_simp
  have 4: "\<forall>d \<in> set (db empty_world ''users''). \<not> store_matches E0 [(''_id'', VObjectId 1)] d"
    by code_simp
  have 5: "[(''name'', VStr ''ann'')] = model_dict user1 (exclude_arg None None) None"
    by code_simp
  have 6: "\<not> store_fails E0 (length (trace blog_world))" by code_simp
  have 7: "List.find (store_matches E0 [(''_id'', VObjectId 1)]) (db blog_world ''users'') =
      Some [(''_id'', VObjectId 1), (''name'', VStr ''ann'')]"
    by code_simp
  have 8: "dict_update [(''_id'', VObjectId 1), (''name'', VStr ''ann'')] [(''name'', VStr ''ann'')] =
      [(''_id'', VObjectId 1), (''name'', VStr ''ann'')]"
    by code_simp
  from update_zero_matched[OF 1 2 3 4 5] 6 7 8 show ?thesis by blast
qed

section \<open>Insert\<close>

lemma model_dict_amended:
  "model_dict m (exclude_arg include exclude) include = amended_document m include exclude"
proof -
  have "(\<lambda>(k, v). (case include of None \<Rightarrow> True | Some s \<Rightarrow> k \<in> s) \<and>
                  (case exclude_arg include exclude of None \<Rightarrow> True | Some s \<Rightarrow> k \<notin> s)) =
        (\<lambda>(k, v :: val). case include of
                    Some s \<Rightarrow> k \<in> s
                  | None \<Rightarrow> k \<noteq> ''id'' \<and> k \<notin> (case exclude of None \<Rightarrow> {} | Some x \<Rightarrow> x))"
    by (auto simp: exclude_arg_def truthy_def fun_eq_iff split: option.splits)
  then show ?thesis by (simp add: model_dict_def amended_document_def)
qed

text \<open>
  C8, as amended. When \<^verbatim>\<open>insert\<close> returns, the document added to the collection is
  built from the fields of the record restricted to \<^verbatim>\<open>include\<close> when \<^verbatim>\<open>include\<close> is
  given, and otherwise from the fields minus \<^verbatim>\<open>exclude\<close> and minus the identifier field,
  which is left out on this path whether \<^verbatim>\<open>exclude\<close> is given or not. A document
  without \<^verbatim>\<open>_id\<close> gets the identifier the driver generates. No other collection
  changes, and the identifier of the stored document is written to the \<^verbatim>\<open>id\<close> field of
  the record.
\<close>

theorem insert_persists_selected_fields:
  assumes "insert E c m include exclude w = (Inr i, m', w')"
    and "doc = amended_document m include exclude"
  shows "\<exists>h. get_collection E c = Inr h
           \<and> db w' h = db w h @ [if map_of doc ''_id'' = None
                                 then doc @ [(''_id'', VObjectId (next_oid w))] else doc]
           \<and> (\<forall>h'. h' \<noteq> h \<longrightarrow> db w' h' = db w h')
           \<and> map_of (last (db w' h)) ''_id'' = Some i
           \<and> m' = set_id m i \<and> getattr m' ''id'' = Inr i"
proof -
  obtain h where h: "get_collection E c = Inr h"
    using assms(1) by (cases "get_collection E c") (auto simp: insert_def Let_def)
  have nf: "\<not> fails_now E w"
    using assms(1) h
    by (auto simp: insert_def Let_def store_insert_one_def split: if_splits)
  have g: "getattr (set_id m i) ''id'' = Inr i"
    by (simp add: getattr_def set_id_def update_conv')
  show ?thesis
  proof (cases "map_of doc ''_id''")
    case None
    then have l: "map_of (doc @ [(''_id'', x)]) ''_id'' = Some x" for x
      by (simp add: map_add_def)
    show ?thesis
      using assms(1) h nf g None l unfolding insert_def model_dict_amended assms(2)[symmetric]
      by (auto simp: Let_def store_insert_one_def answered_def simp del: map_of_append)
  next
    case (Some j)
    then show ?thesis
      using assms(1) h nf g unfolding insert_def model_dict_amended assms(2)[symmetric]
      by (auto simp: Let_def store_insert_one_def answered_def)
  qed
qed

text \<open>
  A new user is inserted without its name; the stored document has the generated identifier.
\<close>

theorem insert_persists_selected_fields_witness:
  "\<exists>h. get_collection E0 UserModelManager = Inr h
     \<and> db (snd (snd (insert E0 UserModelManager new_user None (Some {''name''}) blog_world))) h =
         db blog_world h @ [[(''age'', VInt 3), (''_id'', VObjectId 100)]]
     \<and> getattr (fst (snd (insert E0 UserModelManager new_user None (Some {''name''}) blog_world)))
         ''id'' = Inr (VObjectId 100)"
proof -
  let ?r = "insert E0 UserModelManager new_user None (Some {''name''}) blog_world"
  have f: "fst ?r = Inr (VObjectId 100)" by code_simp
  have p: "?r = (Inr (VObjectId 100), fst (snd ?r), snd (snd ?r))"
    using f by (simp add: prod_eq_iff)
  have d: "[(''age'', VInt 3)] = amended_document new_user None (Some {''name''})"
    by code_simp
  have n: "next_oid blog_world = 100" by code_simp
  from insert_persists_selected_fields[OF p d] show ?thesis
    by (auto simp: n)
qed

text \<open>
  C8 as stated fails where \<^verbatim>\<open>exclude\<close> is given without the identifier field: for the
  record \<open>new_user\<close> and \<^verbatim>\<open>exclude={'name'}\<close> the specification's document keeps the
  identifier 7 of the record, and the stored document has the generated identifier 100,
  which is also what \<^verbatim>\<open>insert\<close> writes to the record.
\<close>

theorem insert_exclude_counterexample:
  "spec_document new_user None (Some {''name''}) = [(''_id'', VObjectId 7), (''age'', VInt 3)]
   \<and> last (db (snd (snd (insert E0 UserModelManager new_user None (Some {''name''}) blog_world)))
       ''users'') = [(''age'', VInt 3), (''_id'', VObjectId 100)]
   \<and> map_of (last (db (snd (snd (insert E0 UserModelManager new_user None (Some {''name''})
       blog_world))) ''users'')) \<noteq> map_of (spec_document new_user None (Some {''name''}))
   \<and> getattr (fst (snd (insert E0 UserModelManager new_user None (Some {''name''}) blog_world)))
       ''id'' = Inr (VObjectId 100)"
proof -
  have 1: "spec_document new_user None (Some {''name''}) =
      [(''_id'', VObjectId 7), (''age'', VInt 3)]"
    by code_simp
  have 2: "last (db (snd (snd (insert E0 UserModelManager new_user None (Some {''name''})
      blog_world))) ''users'') = [(''age'', VInt 3), (''_id'', VObjectId 100)]"
    by code_simp
  have 3: "map_of [(''age'', VInt 3), (''_id'', VObjectId 100)] ''_id'' \<noteq>
      map_of [(''_id'', VObjectId 7), (''age'', VInt 3)] ''_id''"
    by simp
  have 4: "getattr (fst (snd (insert E0 UserModelManager new_user None (Some {''name''})
      blog_world))) ''id'' = Inr (VObjectId 100)"
    by code_simp
  show ?thesis unfolding 1 2 using 3 4 by metis
qed

section \<open>The reverse accessor\<close>










section \<open>Cascading delete\<close>

subsection \<open>What a cascade can change\<close>

lemma only_deletes_refl: "only_deletes E w w"
  by (auto simp: only_deletes_def)

lemma only_deletes_trans:
  assumes "only_deletes E w w1" and "only_deletes E w1 w2"
  shows "only_deletes E w w2"
proof -
  obtain e1 where 1: "trace w1 = trace w @ e1"
      "\<And>h d. d \<in> set (db w1 h) \<Longrightarrow> d \<in> set (db w h)"
      "\<And>h d. d \<in> set (db w h) \<Longrightarrow> \<not> list_ex (deletes_doc E h d) e1 \<Longrightarrow> d \<in> set (db w1 h)"
    using assms(1) unfolding only_deletes_def by blast
  obtain e2 where 2: "trace w2 = trace w1 @ e2"
      "\<And>h d. d \<in> set (db w2 h) \<Longrightarrow> d \<in> set (db w1 h)"
      "\<And>h d. d \<in> set (db w1 h) \<Longrightarrow> \<not> list_ex (deletes_doc E h d) e2 \<Longrightarrow> d \<in> set (db w2 h)"
    using assms(2) unfolding only_deletes_def by blast
  have t: "trace w2 = trace w @ (e1 @ e2)" using 1(1) 2(1) by simp
  have a: "\<forall>h d. d \<in> set (db w2 h) \<longrightarrow> d \<in> set (db w h)" using 1(2) 2(2) by blast
  have b: "\<forall>h d. d \<in> set (db w h) \<longrightarrow> \<not> list_ex (deletes_doc E h d) (e1 @ e2)
             \<longrightarrow> d \<in> set (db w2 h)"
    using 1(3) 2(3) by (simp add: list_ex_iff)
  show ?thesis unfolding only_deletes_def using t a b by blast
qed

lemma remove_first_subset: "d \<in> set (remove_first P xs) \<Longrightarrow> d \<in> set xs"
  by (induction xs) (auto split: if_splits)

lemma remove_first_keeps: "d \<in> set xs \<Longrightarrow> \<not> P d \<Longrightarrow> d \<in> set (remove_first P xs)"
  by (induction xs) auto

lemma store_delete_one_frame: "only_deletes E w (snd (store_delete_one E h flt w))"
proof (cases "fails_now E w")
  case True
  then show ?thesis
    by (auto simp: only_deletes_def store_delete_one_def answered_def)
next
  case False
  let ?k = "if list_ex (store_matches E flt) (db w h) then 1 else 0 :: nat"
  have s: "snd (store_delete_one E h flt w) =
      answered (DeleteOne h flt) (Deleted ?k)
        (w\<lparr>db := (db w)(h := remove_first (store_matches E flt) (db w h))\<rparr>)"
    using False by (simp add: store_delete_one_def Let_def)
  show ?thesis
    unfolding only_deletes_def s answered_def
    by (rule exI[of _ "[(DeleteOne h flt, Deleted ?k)]"])
       (auto dest: remove_first_subset intro: remove_first_keeps)
qed

lemma find_all_frame:
  "find_all E mgr w = (r, w') \<Longrightarrow>
   db w' = db w \<and> (trace w' = trace w \<or> (\<exists>h flt a. trace w' = trace w @ [(Find h flt, a)]))"
  by (auto simp: find_all_def store_find_def answered_def Let_def split: sum.splits if_splits)

lemma alloc_frame: "alloc d w = (a, w') \<Longrightarrow> db w' = db w \<and> trace w' = trace w"
  by (auto simp: alloc_def)

lemma init_frame: "init c r w = (mgr, w') \<Longrightarrow> db w' = db w \<and> trace w' = trace w"
  by (auto simp: init_def alloc_def Let_def split: option.splits if_splits)

lemma fetch_children_frame0:
  assumes "fetch_children E m edge w = (r, w')"
  shows "db w' = db w \<and> (trace w' = trace w \<or> (\<exists>h flt a. trace w' = trace w @ [(Find h flt, a)]))"
proof -
  obtain mc f mf where e: "edge = (mc, f, mf)" by (cases edge)
  show ?thesis
  proof (cases "getattr m mf")
    case (Inl x)
    then show ?thesis using assms by (simp add: fetch_children_def e)
  next
    case (Inr v)
    obtain a w1 where a: "alloc [(f, v)] w = (a, w1)" by (cases "alloc [(f, v)] w")
    obtain mgr w2 where i: "init (manager_attr E mc) (Some a) w1 = (mgr, w2)"
      by (cases "init (manager_attr E mc) (Some a) w1")
    have "find_all E mgr w2 = (r, w')"
      using assms Inr a i by (simp add: fetch_children_def e)
    from find_all_frame[OF this] alloc_frame[OF a] init_frame[OF i]
    show ?thesis by simp
  qed
qed

lemma fetch_children_frame: "only_deletes E w (snd (fetch_children E m edge w))"
proof -
  obtain r w' where f: "fetch_children E m edge w = (r, w')"
    by (cases "fetch_children E m edge w")
  from fetch_children_frame0[OF f] show ?thesis
    unfolding f only_deletes_def by auto
qed

lemma delete_objs_frame:
  assumes "\<And>c m w. only_deletes E w (snd (delete n E c m w))"
  shows "only_deletes E w (snd (delete_objs n E objs w))"
proof (induction objs arbitrary: w)
  case Nil
  show ?case by (simp add: only_deletes_refl)
next
  case (Cons child objs)
  obtain r w1 where d: "delete n E (manager_attr E (model_class child)) child w = (r, w1)"
    by (cases "delete n E (manager_attr E (model_class child)) child w")
  have 1: "only_deletes E w w1"
    using assms[of w "manager_attr E (model_class child)" child] d by simp
  show ?case
  proof (cases r)
    case (Inl e)
    then show ?thesis using d 1 by simp
  next
    case (Inr x)
    then show ?thesis using d only_deletes_trans[OF 1 Cons.IH[of w1]] by simp
  qed
qed

lemma delete_edges_frame:
  assumes "\<And>c m w. only_deletes E w (snd (delete n E c m w))"
  shows "only_deletes E w (snd (delete_edges n E m es w))"
proof (induction es arbitrary: w)
  case Nil
  show ?case by (simp add: only_deletes_refl)
next
  case (Cons edge es)
  obtain r w1 where f: "fetch_children E m edge w = (r, w1)"
    by (cases "fetch_children E m edge w")
  have 1: "only_deletes E w w1" using fetch_children_frame[of E w m edge] f by simp
  show ?case
  proof (cases r)
    case (Inl e)
    then show ?thesis using f 1 by simp
  next
    case (Inr objs)
    obtain r2 w2 where o: "delete_objs n E objs w1 = (r2, w2)"
      by (cases "delete_objs n E objs w1")
    have 2: "only_deletes E w w2"
      using only_deletes_trans[OF 1 delete_objs_frame[OF assms, of w1 objs]] o by simp
    show ?thesis
    proof (cases r2)
      case (Inl e)
      then show ?thesis using f Inr o 2 by simp
    next
      case (Inr x)
      then show ?thesis
        using f \<open>r = Inr objs\<close> o only_deletes_trans[OF 2 Cons.IH[of w2]] by simp
    qed
  qed
qed

lemma delete_frame: "only_deletes E w (snd (delete n E c m w))"
proof (induction n arbitrary: c m w)
  case 0
  show ?case by (simp add: only_deletes_refl)
next
  case (Suc n)
  obtain r w1 where e: "delete_edges n E m (class_relation_map w) w = (r, w1)"
    by (cases "delete_edges n E m (class_relation_map w) w")
  have 1: "only_deletes E w w1"
    using delete_edges_frame[of E n w m "class_relation_map w"] Suc.IH e by simp
  show ?case
  proof (cases r)
    case (Inl x)
    then show ?thesis using e 1 by simp
  next
    case (Inr u)
    show ?thesis
    proof (cases "get_collection E c")
      case (Inl x)
      then show ?thesis using e Inr 1 by simp
    next
      case h: (Inr h)
      show ?thesis
      proof (cases "getattr m ''id''")
        case (Inl x)
        then show ?thesis using e Inr h 1 by simp
      next
        case i: (Inr i)
        show ?thesis
          using e Inr h i
            only_deletes_trans[OF 1 store_delete_one_frame[of E w1 h "[(''_id'', i)]"]]
          by simp
      qed
    qed
  qed
qed

subsection \<open>What a cascade leaves of the state\<close>



















subsection \<open>The order of the calls\<close>





subsection \<open>The nested calls the interpreter allows\<close>





subsection \<open>A cascade over references without a cycle returns\<close>






subsection \<open>A failure in the cascade\<close>

lemma delete_edges_append:
  "delete_edges n E m (es1 @ es2) w =
     (case delete_edges n E m es1 w of
        (Inl e, w1) \<Rightarrow> (Inl e, w1)
      | (Inr u, w1) \<Rightarrow> delete_edges n E m es2 w1)"
  by (induction es1 arbitrary: w) (auto split: prod.splits sum.splits)

lemma delete_objs_append:
  "delete_objs n E (os1 @ os2) w =
     (case delete_objs n E os1 w of
        (Inl e, w1) \<Rightarrow> (Inl e, w1)
      | (Inr u, w1) \<Rightarrow> delete_objs n E os2 w1)"
  by (induction os1 arbitrary: w) (auto split: prod.splits sum.splits)

text \<open>
  C3. Let the cascade of \<^verbatim>\<open>delete\<close> for a record have walked the edges \<open>es1\<close>,
  fetched the children of the next edge and deleted the children \<open>os1\<close>, and let the
  \<^verbatim>\<open>delete\<close> of the next child fail with the error \<open>e\<close> in the state \<open>wx\<close>. Then
  \<^verbatim>\<open>delete\<close> of the record fails with \<open>e\<close> and ends in that same state \<open>wx\<close>: no call is
  issued for the remaining children and edges or for the parent document, and nothing that
  was deleted is restored. In \<open>wx\<close> the store has no document that it did not have
  before, and it still has every document, the parent's included, whose collection saw
  no answered \<^verbatim>\<open>delete_one\<close> with a filter matching it.
\<close>

theorem cascade_failure_aborts:
  assumes "class_relation_map w = es1 @ edge # es2"
    and "delete_edges n E m es1 w = (Inr u1, wa)"
    and "fetch_children E m edge wa = (Inr (os1 @ child # os2), wb)"
    and "delete_objs n E os1 wb = (Inr u2, wc)"
    and "delete n E (manager_attr E (model_class child)) child wc = (Inl e, wx)"
  shows "delete (Suc n) E c m w = (Inl e, wx)
       \<and> take (length (trace w)) (trace wx) = trace w
       \<and> (\<forall>h d. d \<in> set (db wx h) \<longrightarrow> d \<in> set (db w h))
       \<and> (\<forall>h d. d \<in> set (db w h)
             \<and> \<not> list_ex (deletes_doc E h d) (drop (length (trace w)) (trace wx))
            \<longrightarrow> d \<in> set (db wx h))"
proof -
  have o: "delete_objs n E (os1 @ child # os2) wb = (Inl e, wx)"
    using assms(4,5) by (simp add: delete_objs_append)
  have "delete_edges n E m (edge # es2) wa = (Inl e, wx)"
    using assms(3) o by simp
  then have "delete_edges n E m (class_relation_map w) w = (Inl e, wx)"
    using assms(1,2) by (simp add: delete_edges_append)
  then have 1: "delete (Suc n) E c m w = (Inl e, wx)" by simp
  have "only_deletes E w wx" using delete_frame[of E w "Suc n" c m] 1 by simp
  then obtain evs where evs: "trace wx = trace w @ evs"
    "\<forall>h d. d \<in> set (db wx h) \<longrightarrow> d \<in> set (db w h)"
    "\<forall>h d. d \<in> set (db w h) \<longrightarrow> \<not> list_ex (deletes_doc E h d) evs \<longrightarrow> d \<in> set (db wx h)"
    unfolding only_deletes_def by blast
  show ?thesis using 1 evs by simp
qed

text \<open>
  The store fails the \<^verbatim>\<open>delete_one\<close> of post 4: post 2 and its comment are gone, post 4 and user 1 are still there.
\<close>

theorem cascade_failure_aborts_witness:
  "delete 3 E_fail UserModelManager user1 blog_world =
     (Inl (PersistenceError (DeleteOne ''posts'' [(''_id'', VObjectId 4)])), after_failure)
   \<and> [(''_id'', VObjectId 1), (''name'', VStr ''ann'')] \<in> set (db after_failure ''users'')
   \<and> db after_failure ''posts'' = [[(''_id'', VObjectId 4), (''user_id'', VObjectId 1)]]
   \<and> db after_failure ''comments'' = []"
proof -
  let ?e = "PersistenceError (DeleteOne ''posts'' [(''_id'', VObjectId 4)])"
  have 1: "class_relation_map blog_world =
      [] @ (''Post'', ''user_id'', ''id'') # [(''Comment'', ''post_id'', ''id'')]"
    by code_simp
  have 2: "delete_edges 2 E_fail user1 [] blog_world = (Inr (), blog_world)" by simp
  have "fst (fetch_children E_fail user1 (''Post'', ''user_id'', ''id'') blog_world) =
      Inr ([post2] @ post4 # [])"
    by code_simp
  then have 3: "fetch_children E_fail user1 (''Post'', ''user_id'', ''id'') blog_world =
      (Inr ([post2] @ post4 # []), after_fetch)"
    by (simp add: prod_eq_iff after_fetch_def)
  have "fst (delete_objs 2 E_fail [post2] after_fetch) = Inr ()" by code_simp
  then have 4: "delete_objs 2 E_fail [post2] after_fetch = (Inr (), after_post2)"
    by (simp add: prod_eq_iff after_post2_def)
  have m: "manager_attr E_fail (model_class post4) = PostModelManager" by code_simp
  have "fst (delete 2 E_fail PostModelManager post4 after_post2) = Inl ?e" by code_simp
  then have 5: "delete 2 E_fail (manager_attr E_fail (model_class post4)) post4 after_post2 =
      (Inl ?e, after_failure)"
    unfolding m by (simp add: prod_eq_iff after_failure_def)
  have 6: "[(''_id'', VObjectId 1), (''name'', VStr ''ann'')] \<in> set (db blog_world ''users'')"
    by code_simp
  have 7: "\<not> list_ex (deletes_doc E_fail ''users'' [(''_id'', VObjectId 1), (''name'', VStr ''ann'')])
      (drop (length (trace blog_world)) (trace after_failure))"
    by code_simp
  have 8: "db after_failure ''posts'' = [[(''_id'', VObjectId 4), (''user_id'', VObjectId 1)]]"
    by code_simp
  have 9: "db after_failure ''comments'' = []" by code_simp
  from cascade_failure_aborts[OF 1 2 3 4 5, of UserModelManager] 6 7
  have "delete 3 E_fail UserModelManager user1 blog_world = (Inl ?e, after_failure)"
    and "[(''_id'', VObjectId 1), (''name'', VStr ''ann'')] \<in> set (db after_failure ''users'')"
    by (simp, blast)
  then show ?thesis using 8 9 by simp
qed

subsection \<open>The registry\<close>

lemma register_all_relation_map:
  "class_relation_map (register_all regs w) =
     class_relation_map w @
     map (\<lambda>(c, field_name, model_field_name, model_cls). (model_cls, field_name, model_field_name))
       regs"
proof (induction regs arbitrary: w)
  case Nil
  show ?case by (simp add: register_all_def)
next
  case (Cons x regs)
  obtain c f mf mc where x: "x = (c, f, mf, mc)" by (cases x)
  have "register_all (x # regs) w = register_all regs (relation_map c f mf mc w)"
    by (simp add: register_all_def x)
  then show ?case using Cons.IH[of "relation_map c f mf mc w"]
    by (simp add: relation_map_def x)
qed

text \<open>
  C1. The cascade of a manager class walks \<^verbatim>\<open>cls._relation_map\<close>, which is the one list
  of \<^verbatim>\<open>BaseModelManager\<close> for every manager class (\<open>register_all_relation_map\<close>).
  In the blog, one edge is registered against \<open>UserModelManager\<close> and one against
  \<open>PostModelManager\<close>; deleting a user walks both: it fetches the comments whose
  \<^verbatim>\<open>post_id\<close> is the identifier of the user, through the edge that was registered against
  \<open>PostModelManager\<close>, and deleting a post fetches the posts whose \<^verbatim>\<open>user_id\<close> is the
  identifier of the post.
\<close>

theorem delete_walks_edges_of_other_managers:
  "registered_against UserModelManager blog_registrations = [(''Post'', ''user_id'', ''id'')]
   \<and> class_relation_map blog_world =
       [(''Post'', ''user_id'', ''id''), (''Comment'', ''post_id'', ''id'')]
   \<and> map fst (trace (snd (delete 3 E0 UserModelManager user1 blog_world))) =
       [Find ''posts'' [(''user_id'', VObjectId 1)],
        Find ''posts'' [(''user_id'', VObjectId 2)],
        Find ''comments'' [(''post_id'', VObjectId 2)],
        Find ''posts'' [(''user_id'', VObjectId 3)],
        Find ''comments'' [(''post_id'', VObjectId 3)],
        DeleteOne ''comments'' [(''_id'', VObjectId 3)],
        DeleteOne ''posts'' [(''_id'', VObjectId 2)],
        Find ''posts'' [(''user_id'', VObjectId 4)],
        Find ''comments'' [(''post_id'', VObjectId 4)],
        DeleteOne ''posts'' [(''_id'', VObjectId 4)],
        Find ''comments'' [(''post_id'', VObjectId 1)],
        DeleteOne ''users'' [(''_id'', VObjectId 1)]]"
  by code_simp

end
